theory Spec2Isabelle
  imports Complex_Main "HOL-Library.Char_ord" "HOL-Library.List_Lexorder" "HOL-Library.Sublist"
begin

section \<open>Data model\<close>

text \<open>
  The knowledge base of \<^verbatim>\<open>knowledge/enhanced_knowledge_base.py\<close>. A corpus item is a
  Python dict with a fixed set of keys; it is a record here. A Python float is read as
  the real number it denotes; Python strings are ASCII \<open>string\<close>s.
\<close>

record domain_info =
  domain_id :: string
  domain_name :: string
  domain_description :: string
  domain_icon :: string
  domain_capabilities :: "string list"

record knowledge_item =
  item_id :: string
  title :: string
  description :: string
  content :: string
  categories :: "string list"
  item_keywords :: "string list"
  source :: string
  domain :: string
  capabilities :: "string list"
  relevance :: real

text \<open>
  \<^verbatim>\<open>item_copy = item.copy(); item_copy['similarity_score'] = float(score)\<close>: the copy
  has every key of the corpus item and one more.
\<close>

record scored_item = knowledge_item +
  similarity_score :: real

record source_info =
  module_id :: string
  module_type :: string
  version :: string

text \<open>
  The optional arguments \<^verbatim>\<open>domains=None\<close> and \<^verbatim>\<open>capabilities=None\<close> are either
  \<^verbatim>\<open>None\<close> or a list; the metadata echoes them as they were passed.
\<close>

record query_metadata =
  md_query :: string
  md_domains :: "string list option"
  md_capabilities :: "string list option"
  md_timestamp :: string

record response =
  items :: "scored_item list"
  sources :: "source_info list"
  metadata :: query_metadata

datatype error = DegenerateCorpusError | IndexError

section \<open>The vectorizer\<close>

text \<open>
  Modelled from the spec: the TF-IDF vectorizer and the cosine similarity are library
  routines (\<^verbatim>\<open>TfidfVectorizer(stop_words='english')\<close>, \<^verbatim>\<open>cosine_similarity\<close>) that are
  not under src/. They are written out here as the spec (4.1, 4.2) fixes them: lowercase,
  alphanumeric spans of at least two characters, stop words removed; a vocabulary of the
  distinct terms in lexicographic order; the smoothed inverse document frequency
  \<open>ln ((1 + N) / (1 + df)) + 1\<close>; raw term frequency times idf, L2-normalised, where a
  zero norm is replaced by one before dividing. The stop-word list is a parameter.
\<close>

definition lower_char :: "char \<Rightarrow> char" where
  "lower_char c =
     (let n = (of_char c :: nat) in if 65 \<le> n \<and> n \<le> 90 then char_of (n + 32) else c)"

definition is_alnum :: "char \<Rightarrow> bool" where
  "is_alnum c =
     (let n = (of_char c :: nat)
      in (48 \<le> n \<and> n \<le> 57) \<or> (65 \<le> n \<and> n \<le> 90) \<or> (97 \<le> n \<and> n \<le> 122))"

fun spans :: "string \<Rightarrow> string \<Rightarrow> string list" where
  "spans cur [] = (if cur = [] then [] else [cur])"
| "spans cur (c # cs) =
     (if is_alnum c then spans (cur @ [c]) cs
      else (if cur = [] then [] else [cur]) @ spans [] cs)"

text \<open>
  Modelled from the spec: the analyzer of the library vectorizer (4.1, step 1), for ASCII
  text: lowercase, then the alphanumeric spans of length at least 2 that are not stop words.
\<close>

definition tokenize :: "string list \<Rightarrow> string \<Rightarrow> string list" where
  "tokenize stop text =
     filter (\<lambda>t. 2 \<le> length t \<and> t \<notin> set stop) (spans [] (map lower_char text))"

record vectorizer =
  stop_words :: "string list"
  vocabulary :: "string list"
  idf :: "real list"

definition term_counts :: "string list \<Rightarrow> string list \<Rightarrow> real list" where
  "term_counts vocab toks = map (\<lambda>t. real (count_list toks t)) vocab"

definition dot :: "real list \<Rightarrow> real list \<Rightarrow> real" where
  "dot u v = sum_list (map2 (*) u v)"

definition l2_norm :: "real list \<Rightarrow> real" where
  "l2_norm v = sqrt (dot v v)"

definition handle_zeros :: "real \<Rightarrow> real" where
  "handle_zeros n = (if n = 0 then 1 else n)"

definition l2_normalize :: "real list \<Rightarrow> real list" where
  "l2_normalize v = map (\<lambda>x. x / handle_zeros (l2_norm v)) v"

definition doc_freq :: "string list list \<Rightarrow> string \<Rightarrow> nat" where
  "doc_freq docs t = length (filter (\<lambda>d. t \<in> set d) docs)"

definition idf_weight :: "nat \<Rightarrow> nat \<Rightarrow> real" where
  "idf_weight n df = ln ((1 + real n) / (1 + real df)) + 1"

definition tfidf_weights :: "vectorizer \<Rightarrow> string \<Rightarrow> real list" where
  "tfidf_weights vz text =
     map2 (*) (term_counts (vocabulary vz) (tokenize (stop_words vz) text)) (idf vz)"

text \<open>
  Modelled from the spec: \<^verbatim>\<open>vectorizer.transform\<close> (4.1). Tokens outside the vocabulary
  are not counted; the weights are normalised as the corpus rows are.
\<close>

definition transform :: "vectorizer \<Rightarrow> string \<Rightarrow> real list" where
  "transform vz text = l2_normalize (tfidf_weights vz text)"

text \<open>
  Modelled from the spec: the fit of \<^verbatim>\<open>vectorizer.fit_transform\<close> (4.1, steps 2 and 3), which
  fails on an empty vocabulary.
\<close>

definition fit :: "string list \<Rightarrow> string list \<Rightarrow> error + vectorizer" where
  "fit stop texts =
     (let docs = map (tokenize stop) texts;
          vocab = sort (remdups (concat docs))
      in if vocab = [] then Inl DegenerateCorpusError
         else Inr \<lparr>stop_words = stop, vocabulary = vocab,
                   idf = map (\<lambda>t. idf_weight (length texts) (doc_freq docs t)) vocab\<rparr>)"

definition fit_transform :: "string list \<Rightarrow> string list \<Rightarrow> error + vectorizer \<times> real list list" where
  "fit_transform stop texts =
     (case fit stop texts of
        Inl e \<Rightarrow> Inl e
      | Inr vz \<Rightarrow> Inr (vz, map (transform vz) texts))"

text \<open>
  Modelled from the spec: \<^verbatim>\<open>cosine_similarity(query_vector, self.content_matrix).flatten()\<close>
  (4.2, step 2), one score per row: the dot product of the two vectors, each divided by
  its norm, a zero norm counting as one.
\<close>

definition cosine_similarity :: "real list \<Rightarrow> real list list \<Rightarrow> real list" where
  "cosine_similarity q m = map (\<lambda>row. dot (l2_normalize q) (l2_normalize row)) m"

section \<open>The knowledge base\<close>

record knowledge_base =
  kb_domains :: "domain_info list"
  corpus :: "knowledge_item list"
  kb_vectorizer :: vectorizer
  content_matrix :: "real list list"

text \<open>
  \<^verbatim>\<open>__init__\<close> with \<^verbatim>\<open>_initialize_vectorizer\<close>. The hard-coded tables of
  \<^verbatim>\<open>_load_knowledge_domains\<close> and \<^verbatim>\<open>_load_knowledge_corpus\<close> (the latter abridged in
  the source) are parameters. An exception of the fit leaves no object behind.
\<close>

definition init_kb ::
  "string list \<Rightarrow> domain_info list \<Rightarrow> knowledge_item list \<Rightarrow> error + knowledge_base" where
  "init_kb stop doms its =
     (let corpus_content = map content its
      in case fit_transform stop corpus_content of
           Inl e \<Rightarrow> Inl e
         | Inr (vz, m) \<Rightarrow>
             Inr \<lparr>kb_domains = doms, corpus = its, kb_vectorizer = vz, content_matrix = m\<rparr>)"

definition get_domains :: "knowledge_base \<Rightarrow> domain_info list" where
  "get_domains kb = kb_domains kb"

text \<open>
  \<^verbatim>\<open>similarity_scores.argsort()[::-1]\<close>: the indices that sort the scores ascending,
  reversed. \<^verbatim>\<open>argsort\<close> is a library routine whose default sort is not stable: it
  promises a permutation along which the scores ascend (\<open>is_argsort\<close> below) and no
  order of equal scores. \<open>argsort\<close> here is one such result, the one of a stable sort;
  what is proved of the order of equal scores is proved of every result (\<open>query_on\<close>
  below). The reversal is the source's.
\<close>

definition argsort :: "real list \<Rightarrow> nat list" where
  "argsort scores = sort_key (\<lambda>i. scores ! i) [0..<length scores]"

definition sorted_indices :: "real list \<Rightarrow> nat list" where
  "sorted_indices scores = rev (argsort scores)"

text \<open>Python truthiness of an optional list: \<^verbatim>\<open>None\<close> and \<^verbatim>\<open>[]\<close> are false.\<close>

fun truthy :: "string list option \<Rightarrow> bool" where
  "truthy None = False"
| "truthy (Some xs) = (xs \<noteq> [])"

fun elems :: "string list option \<Rightarrow> string list" where
  "elems None = []"
| "elems (Some xs) = xs"

definition annotate :: "knowledge_item \<Rightarrow> real \<Rightarrow> scored_item" where
  "annotate item score = knowledge_item.extend item \<lparr>similarity_score = score\<rparr>"

text \<open>
  The three \<^verbatim>\<open>continue\<close> tests of the loop, in the source's order: an item is kept when
  none of them fires.
\<close>

definition skipped :: "string list option \<Rightarrow> string list option \<Rightarrow> knowledge_item \<Rightarrow> real \<Rightarrow> bool" where
  "skipped domains caps item score =
     (if score < 1 / 10 then True
      else if truthy domains \<and> domain item \<notin> set (elems domains) then True
      else if truthy caps \<and> \<not> list_ex (\<lambda>cap. cap \<in> set (capabilities item)) (elems caps)
        then True
      else False)"

text \<open>
  The \<^verbatim>\<open>for idx in sorted_indices\<close> loop with its accumulator \<^verbatim>\<open>filtered_items\<close>.
  \<^verbatim>\<open>self.corpus[idx]\<close> raises outside the corpus; \<^verbatim>\<open>break\<close> returns the accumulator.
\<close>

fun walk ::
  "knowledge_item list \<Rightarrow> real list \<Rightarrow> string list option \<Rightarrow> string list option \<Rightarrow>
   nat list \<Rightarrow> scored_item list \<Rightarrow> error + scored_item list" where
  "walk cps scores domains caps [] filtered_items = Inr filtered_items"
| "walk cps scores domains caps (idx # rest) filtered_items =
     (if length cps \<le> idx then Inl IndexError
      else
        let item = cps ! idx; score = scores ! idx
        in if skipped domains caps item score
           then walk cps scores domains caps rest filtered_items
           else
             let filtered_items' = filtered_items @ [annotate item score]
             in if 5 \<le> length filtered_items' then Inr filtered_items'
                else walk cps scores domains caps rest filtered_items')"

definition engine_source :: source_info where
  "engine_source =
     \<lparr>module_id = ''enhanced-knowledge-base'', module_type = ''EnhancedKnowledgeBase'',
      version = ''1.0.0''\<rparr>"

text \<open>
  \<^verbatim>\<open>query\<close>. The clock read by \<^verbatim>\<open>datetime.now().isoformat()\<close> is the argument \<open>now\<close>.
  \<open>similarity_scores\<close> are the exact scores, without the rounding of the double
  arithmetic in which the library computes them; what is proved of the size of a returned
  score is proved of every score array (\<open>query_on\<close> below).
\<close>

definition similarity_scores :: "knowledge_base \<Rightarrow> string \<Rightarrow> real list" where
  "similarity_scores kb q =
     (let query_vector = transform (kb_vectorizer kb) q
      in cosine_similarity query_vector (content_matrix kb))"

definition query ::
  "knowledge_base \<Rightarrow> string \<Rightarrow> string \<Rightarrow> string list option \<Rightarrow> string list option \<Rightarrow>
   error + response" where
  "query kb now q domains caps =
     (let scores = similarity_scores kb q
      in case walk (corpus kb) scores domains caps (sorted_indices scores) [] of
           Inl e \<Rightarrow> Inl e
         | Inr filtered_items \<Rightarrow>
             Inr \<lparr>items = filtered_items, sources = [engine_source],
                  metadata = \<lparr>md_query = q, md_domains = domains, md_capabilities = caps,
                              md_timestamp = now\<rparr>\<rparr>)"

text \<open>
  The corpus positions whose items the loop appends: the first five positions of the
  ranked list that no test skips (see \<open>query_fitted\<close>).
\<close>

definition kept :: "knowledge_base \<Rightarrow> string \<Rightarrow> string list option \<Rightarrow> string list option \<Rightarrow> nat list" where
  "kept kb q domains caps =
     (let scores = similarity_scores kb q
      in take 5 (filter (\<lambda>i. \<not> skipped domains caps (corpus kb ! i) (scores ! i))
                   (sorted_indices scores)))"

definition example_stop :: "string list" where
  "example_stop = [''the'', ''and'', ''of'', ''is'', ''for'']"

definition mk_item :: "string \<Rightarrow> string \<Rightarrow> string \<Rightarrow> string list \<Rightarrow> knowledge_item" where
  "mk_item i txt d caps =
     \<lparr>item_id = i, title = i, description = [], content = txt, categories = [],
      item_keywords = [], source = [], domain = d, capabilities = caps, relevance = 1\<rparr>"

definition scenario_corpus :: "knowledge_item list" where
  "scenario_corpus =
     [mk_item ''a'' ''business model canvas value proposition'' ''business'' [''business_modeling''],
      mk_item ''b'' ''lean startup validation'' ''lean'' [''founder_mentorship'']]"

definition scenario_kb :: knowledge_base where
  "scenario_kb = projr (init_kb example_stop [] scenario_corpus)"



definition stop_only_corpus :: "knowledge_item list" where
  "stop_only_corpus =
     [mk_item ''s1'' ''The and of'' ''business'' [], mk_item ''s2'' ''is for the'' ''lean'' []]"

definition six_corpus :: "knowledge_item list" where
  "six_corpus =
     [mk_item ''k0'' ''canvas canvas canvas lean lean lean lean'' ''lean'' [''founder_mentorship''],
      mk_item ''k1'' ''canvas canvas canvas canvas lean lean lean'' ''business'' [''business_modeling''],
      mk_item ''k2'' ''canvas canvas canvas canvas lean lean lean'' ''business'' [''business_modeling''],
      mk_item ''k3'' ''canvas canvas canvas canvas lean lean lean'' ''business'' [''business_modeling''],
      mk_item ''k4'' ''canvas canvas canvas canvas lean lean lean'' ''business'' [''business_modeling''],
      mk_item ''k5'' ''canvas canvas canvas canvas lean lean lean'' ''business'' [''business_modeling'']]"

definition six_kb :: knowledge_base where
  "six_kb = projr (init_kb example_stop [] six_corpus)"

section \<open>The engine as objects on a heap\<close>

text \<open>
  The corpus of the source is a list of references to dict objects, and \<^verbatim>\<open>query\<close> works
  on those objects: \<^verbatim>\<open>item = self.corpus[idx]\<close> is a reference, \<^verbatim>\<open>item.copy()\<close> is a new
  object and \<^verbatim>\<open>item_copy['similarity_score'] = ...\<close> is a write to it. To state what a
  query does to the stored items, the objects live in a heap: a dict object holds the
  keys of an item and, when it has been set, the key \<^verbatim>\<open>similarity_score\<close>. Addresses
  from \<open>next_addr\<close> on are not allocated.
\<close>

type_synonym addr = nat

record dict_obj =
  obj_item :: knowledge_item
  obj_score :: "real option"

record engine_state =
  heap :: "addr \<Rightarrow> dict_obj"
  next_addr :: addr
  corpus_refs :: "addr list"
  st_domains :: "domain_info list"
  st_vectorizer :: vectorizer
  st_matrix :: "real list list"

record response_refs =
  items_refs :: "addr list"
  sources_h :: "source_info list"
  metadata_h :: query_metadata

record query_call =
  call_now :: string
  call_query :: string
  call_domains :: "string list option"
  call_capabilities :: "string list option"

text \<open>\<^verbatim>\<open>item.copy()\<close>: a new object with the keys and values of the old one.\<close>

definition dict_copy :: "addr \<Rightarrow> engine_state \<Rightarrow> addr \<times> engine_state" where
  "dict_copy a st =
     (next_addr st,
      st\<lparr>heap := (heap st)(next_addr st := heap st a), next_addr := Suc (next_addr st)\<rparr>)"

text \<open>\<^verbatim>\<open>d['similarity_score'] = float(score)\<close>: a write to the object at \<open>a\<close>.\<close>

definition set_score :: "addr \<Rightarrow> real \<Rightarrow> engine_state \<Rightarrow> engine_state" where
  "set_score a score st = st\<lparr>heap := (heap st)(a := (heap st a)\<lparr>obj_score := Some score\<rparr>)\<rparr>"

fun walk_h ::
  "real list \<Rightarrow> string list option \<Rightarrow> string list option \<Rightarrow> nat list \<Rightarrow> addr list \<Rightarrow>
   engine_state \<Rightarrow> error + addr list \<times> engine_state" where
  "walk_h scores domains caps [] filtered_items st = Inr (filtered_items, st)"
| "walk_h scores domains caps (idx # rest) filtered_items st =
     (if length (corpus_refs st) \<le> idx then Inl IndexError
      else
        let item = corpus_refs st ! idx; score = scores ! idx
        in if skipped domains caps (obj_item (heap st item)) score
           then walk_h scores domains caps rest filtered_items st
           else
             let (item_copy, st1) = dict_copy item st;
                 st2 = set_score item_copy score st1;
                 filtered_items' = filtered_items @ [item_copy]
             in if 5 \<le> length filtered_items' then Inr (filtered_items', st2)
                else walk_h scores domains caps rest filtered_items' st2)"

definition query_h ::
  "string \<Rightarrow> string \<Rightarrow> string list option \<Rightarrow> string list option \<Rightarrow> engine_state \<Rightarrow>
   error + response_refs \<times> engine_state" where
  "query_h now q domains caps st =
     (let query_vector = transform (st_vectorizer st) q;
          scores = cosine_similarity query_vector (st_matrix st)
      in case walk_h scores domains caps (sorted_indices scores) [] st of
           Inl e \<Rightarrow> Inl e
         | Inr (filtered_items, st') \<Rightarrow>
             Inr (\<lparr>items_refs = filtered_items, sources_h = [engine_source],
                   metadata_h = \<lparr>md_query = q, md_domains = domains, md_capabilities = caps,
                                 md_timestamp = now\<rparr>\<rparr>, st'))"

text \<open>A sequence of calls on the same engine; an exception ends it.\<close>

fun run_queries ::
  "query_call list \<Rightarrow> engine_state \<Rightarrow> error + response_refs list \<times> engine_state" where
  "run_queries [] st = Inr ([], st)"
| "run_queries (c # cs) st =
     (case query_h (call_now c) (call_query c) (call_domains c) (call_capabilities c) st of
        Inl e \<Rightarrow> Inl e
      | Inr (r, st1) \<Rightarrow>
          (case run_queries cs st1 of
             Inl e \<Rightarrow> Inl e
           | Inr (rs, st2) \<Rightarrow> Inr (r # rs, st2)))"

text \<open>
  The state after \<^verbatim>\<open>__init__\<close>: the items of the corpus are the objects at the addresses
  \<open>0, 1, \<dots>\<close> in corpus order, none with a \<^verbatim>\<open>similarity_score\<close> key.
\<close>

definition empty_obj :: dict_obj where
  "empty_obj = \<lparr>obj_item = mk_item [] [] [] [], obj_score = None\<rparr>"

fun store_items :: "knowledge_item list \<Rightarrow> addr \<Rightarrow> (addr \<Rightarrow> dict_obj) \<Rightarrow> (addr \<Rightarrow> dict_obj)" where
  "store_items [] a h = h"
| "store_items (x # xs) a h = store_items xs (Suc a) (h(a := \<lparr>obj_item = x, obj_score = None\<rparr>))"

definition load_state :: "knowledge_base \<Rightarrow> engine_state" where
  "load_state kb =
     \<lparr>heap = store_items (corpus kb) 0 (\<lambda>a. empty_obj),
      next_addr = length (corpus kb),
      corpus_refs = [0..<length (corpus kb)],
      st_domains = kb_domains kb,
      st_vectorizer = kb_vectorizer kb,
      st_matrix = content_matrix kb\<rparr>"

text \<open>What a reference denotes: the item read back from the heap.\<close>

definition read_item :: "engine_state \<Rightarrow> addr \<Rightarrow> knowledge_item" where
  "read_item st a = obj_item (heap st a)"

definition read_scored :: "engine_state \<Rightarrow> addr \<Rightarrow> scored_item option" where
  "read_scored st a = map_option (annotate (obj_item (heap st a))) (obj_score (heap st a))"

section \<open>The query on the arrays of the library\<close>

text \<open>
  \<open>similarity_scores\<close> and \<open>argsort\<close> fix the results of the two library calls that open
  \<^verbatim>\<open>query\<close>: the scores as exact real numbers and the order of equal scores as corpus
  order. The library computes the scores in double arithmetic, with rounding, and its
  default sort is not stable, so neither is promised by the code. \<open>query_on\<close> is
  \<^verbatim>\<open>query\<close> from \<^verbatim>\<open>sorted_indices = similarity_scores.argsort()[::-1]\<close> on, with the two
  arrays that the library returned as arguments; a double is read as the real number it
  denotes (for a double, the test against the double \<^verbatim>\<open>0.1\<close> and the test against
  \<open>1 / 10\<close> agree, since no double lies between the two). \<open>is_argsort\<close> is what the library
  promises of \<^verbatim>\<open>argsort\<close>: a permutation of the positions along which the scores ascend.
\<close>

definition is_argsort :: "real list \<Rightarrow> nat list \<Rightarrow> bool" where
  "is_argsort scores idxs \<longleftrightarrow>
     set idxs = {0..<length scores} \<and> distinct idxs \<and> sorted (map (\<lambda>i. scores ! i) idxs)"

definition query_on ::
  "knowledge_base \<Rightarrow> real list \<Rightarrow> nat list \<Rightarrow> string \<Rightarrow> string \<Rightarrow> string list option \<Rightarrow>
   string list option \<Rightarrow> error + response" where
  "query_on kb scores argsorted now q domains caps =
     (let ranked = rev argsorted
      in case walk (corpus kb) scores domains caps ranked [] of
           Inl e \<Rightarrow> Inl e
         | Inr filtered_items \<Rightarrow>
             Inr \<lparr>items = filtered_items, sources = [engine_source],
                  metadata = \<lparr>md_query = q, md_domains = domains, md_capabilities = caps,
                              md_timestamp = now\<rparr>\<rparr>)"


section \<open>Vectors and similarity\<close>


lemma walk_pure:
  "\<forall>i\<in>set idxs. i < length cps \<Longrightarrow> length acc < 5 \<Longrightarrow>
   walk cps scores d c idxs acc =
     Inr (acc @ take (5 - length acc)
            (map (\<lambda>i. annotate (cps ! i) (scores ! i))
               (filter (\<lambda>i. \<not> skipped d c (cps ! i) (scores ! i)) idxs)))"
proof (induction idxs arbitrary: acc)
  case Nil
  then show ?case by simp
next
  case (Cons idx rest)
  show ?case
  proof (cases "skipped d c (cps ! idx) (scores ! idx)")
    case True
    with Cons show ?thesis by simp
  next
    case False
    show ?thesis
    proof (cases "5 \<le> Suc (length acc)")
      case True
      with Cons.prems have "5 - length acc = Suc 0" by simp
      with True False Cons.prems show ?thesis by simp
    next
      case F2: False
      then have "5 - length acc = Suc (5 - Suc (length acc))" by simp
      with F2 False Cons show ?thesis by (simp add: Let_def)
    qed
  qed
qed

lemma set_argsort: "set (argsort scores) = {0..<length scores}"
  by (simp add: argsort_def)

lemma distinct_argsort: "distinct (argsort scores)"
  by (simp add: argsort_def)

lemma sorted_argsort: "sorted (map (\<lambda>i. scores ! i) (argsort scores))"
  by (simp add: argsort_def)

lemma dot_Nil [simp]: "dot [] v = 0" "dot u [] = 0"
  by (simp_all add: dot_def)

lemma dot_Cons [simp]: "dot (a # u) (b # v) = a * b + dot u v"
  by (simp add: dot_def)




lemma handle_zeros_nonzero: "handle_zeros n \<noteq> 0"
  by (simp add: handle_zeros_def)




lemma length_normalize [simp]: "length (l2_normalize v) = length v"
  by (simp add: l2_normalize_def)

lemma length_cosine_similarity [simp]: "length (cosine_similarity q m) = length m"
  by (simp add: cosine_similarity_def)

lemma length_similarity_scores [simp]:
  "length (similarity_scores kb q) = length (content_matrix kb)"
  by (simp add: similarity_scores_def)


lemma fit_Inr_iff:
  "(\<exists>vz. fit stop texts = Inr vz) \<longleftrightarrow> concat (map (tokenize stop) texts) \<noteq> []"
proof -
  have "sort (remdups (concat (map (tokenize stop) texts))) = [] \<longleftrightarrow>
        concat (map (tokenize stop) texts) = []"
    using length_sort [of "\<lambda>x. x" "remdups (concat (map (tokenize stop) texts))"]
    by (metis length_0_conv remdups_eq_nil_iff)
  then show ?thesis by (simp add: fit_def Let_def del: concat_eq_Nil_conv)
qed

lemma init_kb_Inr:
  assumes "init_kb stop doms its = Inr kb"
  shows "corpus kb = its" and "kb_domains kb = doms"
    and "length (content_matrix kb) = length its"
    and "fit stop (map content its) = Inr (kb_vectorizer kb)"
    and "content_matrix kb = map (transform (kb_vectorizer kb)) (map content its)"
  using assms
  by (auto simp: init_kb_def fit_transform_def Let_def split: sum.splits)

lemma set_sorted_indices [simp]: "set (sorted_indices scores) = {0..<length scores}"
  by (simp add: sorted_indices_def argsort_def)

lemma distinct_sorted_indices [simp]: "distinct (sorted_indices scores)"
  by (simp add: sorted_indices_def argsort_def)

lemma length_sorted_indices [simp]: "length (sorted_indices scores) = length scores"
  by (simp add: sorted_indices_def argsort_def)

lemma descending_sorted_indices:
  "sorted_wrt (\<lambda>x y. y \<le> x) (map (\<lambda>i. scores ! i) (sorted_indices scores))"
proof -
  have "sorted (map (\<lambda>i. scores ! i) (argsort scores))"
    by (simp add: argsort_def)
  then have "sorted_wrt (\<lambda>x y. y \<le> x) (rev (map (\<lambda>i. scores ! i) (argsort scores)))"
    by (simp add: sorted_wrt_rev)
  then show ?thesis by (simp add: sorted_indices_def rev_map)
qed

lemma query_fitted:
  assumes "length (content_matrix kb) = length (corpus kb)"
  shows "query kb now q domains caps =
     Inr \<lparr>items = map (\<lambda>i. annotate (corpus kb ! i) (similarity_scores kb q ! i))
                     (kept kb q domains caps),
          sources = [engine_source],
          metadata = \<lparr>md_query = q, md_domains = domains, md_capabilities = caps,
                      md_timestamp = now\<rparr>\<rparr>"
proof -
  have "\<forall>i\<in>set (sorted_indices (similarity_scores kb q)). i < length (corpus kb)"
    using assms by simp
  then show ?thesis
    by (simp add: query_def walk_pure [where acc = "[]", simplified] kept_def Let_def take_map)
qed

lemma init_kb_projr:
  assumes "concat (map (tokenize stop) (map content its)) \<noteq> []"
  shows "init_kb stop doms its = Inr (projr (init_kb stop doms its))"
proof -
  from assms obtain vz where "fit stop (map content its) = Inr vz"
    using fit_Inr_iff [of stop "map content its"] by blast
  then show ?thesis by (simp add: init_kb_def fit_transform_def)
qed

lemma tokenize_scenario:
  "tokenize example_stop ''lean startup validation'' = [''lean'', ''startup'', ''validation'']"
  "tokenize example_stop ''business model canvas value proposition'' =
     [''business'', ''model'', ''canvas'', ''value'', ''proposition'']"
  by code_simp+

lemma scenario_init: "init_kb example_stop [] scenario_corpus = Inr scenario_kb"
  unfolding scenario_kb_def
  by (rule init_kb_projr) (simp add: scenario_corpus_def mk_item_def tokenize_scenario)

lemma fitted_aligned:
  "init_kb stop doms its = Inr kb \<Longrightarrow> length (content_matrix kb) = length (corpus kb)"
  by (simp add: init_kb_Inr)

lemma similarity_score_annotate [simp]: "similarity_score (annotate item s) = s"
  by (simp add: annotate_def knowledge_item.extend_def)

lemma kept_subset: "set (kept kb q domains caps) \<subseteq> {0..<length (content_matrix kb)}"
  using set_take_subset [of 5] by (fastforce simp: kept_def Let_def)

lemma kept_not_skipped:
  "i \<in> set (kept kb q domains caps) \<Longrightarrow>
   \<not> skipped domains caps (corpus kb ! i) (similarity_scores kb q ! i)"
  by (auto simp: kept_def Let_def dest: in_set_takeD)

lemma skipped_low: "s < 1 / 10 \<Longrightarrow> skipped domains caps item s"
  by (simp add: skipped_def)

lemma kept_descending:
  "sorted_wrt (\<lambda>x y. y \<le> x) (map (\<lambda>i. similarity_scores kb q ! i) (kept kb q domains caps))"
proof -
  let ?s = "similarity_scores kb q"
  have "sorted_wrt (\<lambda>i j. ?s ! j \<le> ?s ! i) (sorted_indices ?s)"
    using descending_sorted_indices [of ?s] by (simp add: sorted_wrt_map)
  then have "sorted_wrt (\<lambda>i j. ?s ! j \<le> ?s ! i) (kept kb q domains caps)"
    by (simp add: kept_def Let_def sorted_wrt_take sorted_wrt_filter)
  then show ?thesis by (simp add: sorted_wrt_map)
qed

section \<open>Queries that match nothing\<close>

lemma term_counts_absent:
  assumes "\<forall>t \<in> set toks. t \<notin> set vocab"
  shows "term_counts vocab toks = replicate (length vocab) 0"
proof -
  have "count_list toks t = 0" if "t \<in> set vocab" for t
    using that assms by (auto simp: count_list_0_iff)
  then show ?thesis
    by (simp add: term_counts_def map_replicate_const [symmetric] del: map_replicate_const)
qed

lemma map2_zero_left: "map2 (*) (replicate n (0::real)) ws = replicate (min n (length ws)) 0"
proof (induction n arbitrary: ws)
  case 0
  then show ?case by simp
next
  case (Suc n)
  then show ?case by (cases ws) simp_all
qed

lemma dot_zero_left [simp]: "dot (replicate n 0) v = 0"
proof (induction n arbitrary: v)
  case 0
  then show ?case by simp
next
  case (Suc n)
  then show ?case by (cases v) simp_all
qed

lemma l2_normalize_zero [simp]: "l2_normalize (replicate n 0) = replicate n 0"
  by (simp add: l2_normalize_def l2_norm_def)


lemma fit_vectorizer:
  assumes "fit stop texts = Inr vz"
  shows "stop_words vz = stop"
    and "vocabulary vz = sort (remdups (concat (map (tokenize stop) texts)))"
    and "length (idf vz) = length (vocabulary vz)"
    and "vocabulary vz \<noteq> []"
  using assms by (auto simp: fit_def Let_def split: if_splits)

lemma tfidf_weights_absent:
  assumes "\<forall>t \<in> set (tokenize (stop_words vz) q). t \<notin> set (vocabulary vz)"
  shows "tfidf_weights vz q = replicate (min (length (vocabulary vz)) (length (idf vz))) 0"
  by (simp add: tfidf_weights_def term_counts_absent [OF assms] map2_zero_left)

lemma similarity_scores_absent:
  assumes "\<forall>t \<in> set (tokenize (stop_words (kb_vectorizer kb)) q). t \<notin> set (vocabulary (kb_vectorizer kb))"
  shows "similarity_scores kb q = replicate (length (content_matrix kb)) 0"
  by (simp add: similarity_scores_def transform_def tfidf_weights_absent [OF assms]
      cosine_similarity_def map_replicate_const)

lemma kept_all_low:
  assumes "\<forall>s \<in> set (similarity_scores kb q). s < 1 / 10"
  shows "kept kb q domains caps = []"
proof -
  have "skipped domains caps (corpus kb ! i) (similarity_scores kb q ! i)"
    if "i \<in> set (sorted_indices (similarity_scores kb q))" for i
    using that assms by (simp add: skipped_low)
  then show ?thesis by (simp add: kept_def Let_def filter_empty_conv del: set_sorted_indices)
qed

lemma tokenize_set:
  "set (tokenize stop text) =
     {t \<in> set (spans [] (map lower_char text)). 2 \<le> length t \<and> t \<notin> set stop}"
  by (auto simp: tokenize_def)


lemma scenario_vocabulary:
  "vocabulary (kb_vectorizer scenario_kb) =
     [''business'', ''canvas'', ''lean'', ''model'', ''proposition'', ''startup'',
      ''validation'', ''value'']"
proof -
  have "fit example_stop (map content scenario_corpus) = Inr (kb_vectorizer scenario_kb)"
    by (rule init_kb_Inr(4) [OF scenario_init])
  then have "vocabulary (kb_vectorizer scenario_kb) =
      sort (remdups (concat (map (tokenize example_stop) (map content scenario_corpus))))"
    by (rule fit_vectorizer(2))
  also have "\<dots> = [''business'', ''canvas'', ''lean'', ''model'', ''proposition'', ''startup'',
      ''validation'', ''value'']"
    by code_simp
  finally show ?thesis .
qed

lemma spans_examples:
  "spans [] (map lower_char ''The of zebra'') = [''the'', ''of'', ''zebra'']"
  "spans [] (map lower_char []) = []"
  by code_simp+

text \<open>
  C7. A query whose tokens are all stop words or all outside the fitted vocabulary is
  transformed to the zero vector; both norms that divide are replaced by one, every
  similarity is zero, and the query returns no item.
\<close>

theorem unmatched_query_returns_nothing:
  assumes "init_kb stop doms its = Inr kb"
    and "\<forall>t \<in> set (spans [] (map lower_char q)).
           2 \<le> length t \<longrightarrow> t \<in> set stop \<or> t \<notin> set (vocabulary (kb_vectorizer kb))"
  shows "transform (kb_vectorizer kb) q = replicate (length (vocabulary (kb_vectorizer kb))) 0 \<and>
         handle_zeros (l2_norm (tfidf_weights (kb_vectorizer kb) q)) = 1 \<and>
         handle_zeros (l2_norm (transform (kb_vectorizer kb) q)) = 1 \<and>
         similarity_scores kb q = replicate (length its) 0 \<and>
         (\<exists>r. query kb now q domains caps = Inr r \<and> items r = [])"
proof -
  let ?vz = "kb_vectorizer kb"
  have fit: "fit stop (map content its) = Inr ?vz"
    by (rule init_kb_Inr(4) [OF assms(1)])
  have absent: "\<forall>t \<in> set (tokenize (stop_words ?vz) q). t \<notin> set (vocabulary ?vz)"
    using assms(2) by (auto simp: tokenize_set fit_vectorizer(1) [OF fit])
  have w: "tfidf_weights ?vz q = replicate (length (vocabulary ?vz)) 0"
    by (simp add: tfidf_weights_absent [OF absent] fit_vectorizer(3) [OF fit])
  have t: "transform ?vz q = replicate (length (vocabulary ?vz)) 0"
    by (simp add: transform_def w)
  have s: "similarity_scores kb q = replicate (length its) 0"
    by (simp add: similarity_scores_absent [OF absent] init_kb_Inr(3) [OF assms(1)])
  have "kept kb q domains caps = []"
    by (rule kept_all_low) (simp add: s)
  then have "\<exists>r. query kb now q domains caps = Inr r \<and> items r = []"
    by (simp add: query_fitted [OF fitted_aligned [OF assms(1)]])
  with t s show ?thesis
    by (simp add: w l2_norm_def handle_zeros_def)
qed

theorem unmatched_query_returns_nothing_witness:
  "transform (kb_vectorizer scenario_kb) ''The of zebra'' = [0, 0, 0, 0, 0, 0, 0, 0] \<and>
   similarity_scores scenario_kb ''The of zebra'' = [0, 0] \<and>
   (\<exists>r. query scenario_kb ''2024-01-01T00:00:00'' ''The of zebra'' None None = Inr r \<and>
        items r = [])"
proof -
  have "\<forall>t \<in> set (spans [] (map lower_char ''The of zebra'')).
          2 \<le> length t \<longrightarrow> t \<in> set example_stop \<or>
            t \<notin> set (vocabulary (kb_vectorizer scenario_kb))"
    unfolding spans_examples scenario_vocabulary example_stop_def by simp
  from unmatched_query_returns_nothing
         [OF scenario_init this, of "''2024-01-01T00:00:00''" None None]
  show ?thesis by (simp add: scenario_vocabulary scenario_corpus_def)
qed

section \<open>The shape of a result\<close>

lemma length_kept: "length (kept kb q domains caps) \<le> 5"
  by (simp add: kept_def Let_def)

lemma distinct_kept: "distinct (kept kb q domains caps)"
  by (simp add: kept_def Let_def)

lemma length_kept_matrix: "length (kept kb q domains caps) \<le> length (content_matrix kb)"
proof -
  let ?s = "similarity_scores kb q"
  let ?f = "filter (\<lambda>i. \<not> skipped domains caps (corpus kb ! i) (?s ! i)) (sorted_indices ?s)"
  have "length (take 5 ?f) \<le> length ?f" by simp
  also have "\<dots> \<le> length (sorted_indices ?s)" by (rule length_filter_le)
  finally show ?thesis by (simp add: kept_def Let_def)
qed

text \<open>
  C2. A query on a fitted engine returns at most five items and never more than the
  corpus holds: the result is the first five of the ranked positions that pass the
  tests, or all of them when there are fewer than five.
\<close>

theorem query_result_capped:
  assumes "init_kb stop doms its = Inr kb"
  shows "\<exists>r. query kb now q domains caps = Inr r \<and>
             length (items r) \<le> 5 \<and> length (items r) \<le> length its \<and>
             items r =
               take 5 (map (\<lambda>i. annotate (its ! i) (similarity_scores kb q ! i))
                         (filter (\<lambda>i. \<not> skipped domains caps (its ! i) (similarity_scores kb q ! i))
                            (sorted_indices (similarity_scores kb q))))"
proof -
  let ?r = "\<lparr>items = map (\<lambda>i. annotate (corpus kb ! i) (similarity_scores kb q ! i))
                        (kept kb q domains caps),
             sources = [engine_source],
             metadata = \<lparr>md_query = q, md_domains = domains, md_capabilities = caps,
                         md_timestamp = now\<rparr>\<rparr>"
  have its: "corpus kb = its"
    by (rule init_kb_Inr(1) [OF assms])
  have "query kb now q domains caps = Inr ?r"
    by (rule query_fitted [OF fitted_aligned [OF assms]])
  moreover have "length (items ?r) \<le> 5"
    by (simp add: length_kept)
  moreover have "length (items ?r) \<le> length its"
    using length_kept_matrix [of kb q domains caps] by (simp add: init_kb_Inr(3) [OF assms])
  moreover have "items ?r =
      take 5 (map (\<lambda>i. annotate (its ! i) (similarity_scores kb q ! i))
                (filter (\<lambda>i. \<not> skipped domains caps (its ! i) (similarity_scores kb q ! i))
                   (sorted_indices (similarity_scores kb q))))"
    by (simp add: its kept_def Let_def take_map)
  ultimately show ?thesis by blast
qed

theorem query_result_capped_witness:
  "\<exists>r. query scenario_kb ''2024-01-01T00:00:00'' ''lean canvas'' (Some [''lean'']) None = Inr r \<and>
       length (items r) \<le> 5 \<and> length (items r) \<le> length scenario_corpus"
  using query_result_capped [OF scenario_init, of "''2024-01-01T00:00:00''" "''lean canvas''"
      "Some [''lean'']" None]
  by blast

text \<open>
  C10. No corpus position is returned twice: the items of a result are built from a
  duplicate-free list of positions of the corpus.
\<close>

theorem query_positions_distinct:
  assumes "init_kb stop doms its = Inr kb"
  shows "\<exists>r. query kb now q domains caps = Inr r \<and>
             items r = map (\<lambda>i. annotate (its ! i) (similarity_scores kb q ! i))
                         (kept kb q domains caps) \<and>
             distinct (kept kb q domains caps) \<and>
             set (kept kb q domains caps) \<subseteq> {0..<length its}"
  using kept_subset [of kb q domains caps]
  by (simp add: query_fitted [OF fitted_aligned [OF assms]] distinct_kept
      init_kb_Inr(1,3) [OF assms])

theorem query_positions_distinct_witness:
  "\<exists>r. query scenario_kb ''2024-01-01T00:00:00'' ''lean canvas'' None None = Inr r \<and>
       items r = map (\<lambda>i. annotate (scenario_corpus ! i)
                            (similarity_scores scenario_kb ''lean canvas'' ! i))
                   (kept scenario_kb ''lean canvas'' None None) \<and>
       distinct (kept scenario_kb ''lean canvas'' None None) \<and>
       set (kept scenario_kb ''lean canvas'' None None) \<subseteq> {0..<length scenario_corpus}"
  using query_positions_distinct [OF scenario_init, of "''2024-01-01T00:00:00''" "''lean canvas''"
      None None]
  by simp

section \<open>Errors and repeated calls\<close>

lemma tokenize_empty [simp]: "tokenize stop [] = []"
  by (simp add: tokenize_def)

lemma kept_empty_query:
  "length (content_matrix kb) = length (corpus kb) \<Longrightarrow> kept kb [] domains caps = []"
  by (rule kept_all_low) (simp add: similarity_scores_absent)

lemma kept_all_skipped:
  assumes "\<forall>i<length (content_matrix kb). skipped domains caps (corpus kb ! i) (similarity_scores kb q ! i)"
  shows "kept kb q domains caps = []"
  using assms by (simp add: kept_def Let_def filter_empty_conv)

text \<open>
  C3 (as stated, refuted). The claim has \<^verbatim>\<open>query\<close> raise on an empty query text. The
  source has no such test: the empty query is transformed like any other text and the
  call returns a response with no item.
\<close>

theorem empty_query_returns_response:
  "query scenario_kb ''2024-01-01T00:00:00'' [] (Some []) (Some []) =
     Inr \<lparr>items = [], sources = [engine_source],
          metadata = \<lparr>md_query = [], md_domains = Some [], md_capabilities = Some [],
                      md_timestamp = ''2024-01-01T00:00:00''\<rparr>\<rparr>"
  by (simp add: query_fitted [OF fitted_aligned [OF scenario_init]]
      kept_empty_query [OF fitted_aligned [OF scenario_init]])

text \<open>
  C3 (amended). On a fitted engine \<^verbatim>\<open>query\<close> raises for no query text, the empty one
  included: it always returns a response, and the item list of the response is empty
  when every corpus item is skipped, as it is for the empty query.
\<close>

theorem query_never_raises:
  assumes "init_kb stop doms its = Inr kb"
  shows "\<exists>r. query kb now q domains caps = Inr r \<and>
             ((\<forall>i<length its. skipped domains caps (its ! i) (similarity_scores kb q ! i))
                \<longrightarrow> items r = []) \<and>
             (q = [] \<longrightarrow> items r = [])"
proof -
  have al: "length (content_matrix kb) = length (corpus kb)"
    by (rule fitted_aligned [OF assms])
  have "kept kb q domains caps = []"
    if "\<forall>i<length its. skipped domains caps (its ! i) (similarity_scores kb q ! i)"
    using that by (intro kept_all_skipped) (simp add: init_kb_Inr(1,3) [OF assms])
  moreover have "kept kb q domains caps = []" if "q = []"
    using that kept_empty_query [OF al] by simp
  ultimately show ?thesis
    by (auto simp: query_fitted [OF al])
qed

theorem query_never_raises_witness:
  "\<exists>r. query scenario_kb ''2024-01-01T00:00:00'' [] None (Some [''business_modeling'']) = Inr r \<and>
       items r = []"
  using query_never_raises [OF scenario_init, of "''2024-01-01T00:00:00''" "[]" None
      "Some [''business_modeling'']"]
  by auto


section \<open>The ranked order\<close>

lemma init_kb_eq:
  assumes "fit stop (map content its) = Inr vz"
  shows "init_kb stop doms its =
     Inr \<lparr>kb_domains = doms, corpus = its, kb_vectorizer = vz,
          content_matrix = map (transform vz) (map content its)\<rparr>"
  using assms by (simp add: init_kb_def fit_transform_def)







lemma not_skipped_unfiltered:
  "\<not> truthy domains \<Longrightarrow> \<not> truthy caps \<Longrightarrow> skipped domains caps item s \<longleftrightarrow> s < 1 / 10"
  by (simp add: skipped_def)


section \<open>Construction\<close>

lemma vocabulary_empty_iff:
  "sort (remdups (concat (map (tokenize stop) texts))) = [] \<longleftrightarrow>
   concat (map (tokenize stop) texts) = []"
  using length_sort [of "\<lambda>x. x" "remdups (concat (map (tokenize stop) texts))"]
  by (metis length_0_conv remdups_eq_nil_iff)

lemma stop_only_tokens:
  "tokenize example_stop ''The and of'' = []" "tokenize example_stop ''is for the'' = []"
  by code_simp+

text \<open>
  C9. When the tokenization of the corpus yields an empty vocabulary, the fit fails with
  \<open>DegenerateCorpusError\<close> and so does the construction of the engine, which returns no
  engine; when the vocabulary is not empty, the construction succeeds with an engine over
  that corpus and that vocabulary.
\<close>

theorem empty_vocabulary_is_degenerate:
  "(sort (remdups (concat (map (tokenize stop) (map content its)))) = [] \<longrightarrow>
      fit stop (map content its) = Inl DegenerateCorpusError \<and>
      init_kb stop doms its = Inl DegenerateCorpusError) \<and>
   (sort (remdups (concat (map (tokenize stop) (map content its)))) \<noteq> [] \<longrightarrow>
      (\<exists>kb. init_kb stop doms its = Inr kb \<and> corpus kb = its \<and>
            vocabulary (kb_vectorizer kb) =
              sort (remdups (concat (map (tokenize stop) (map content its))))))"
proof (intro conjI impI)
  assume e: "sort (remdups (concat (map (tokenize stop) (map content its)))) = []"
  then show f: "fit stop (map content its) = Inl DegenerateCorpusError"
    by (simp add: fit_def Let_def)
  then show "init_kb stop doms its = Inl DegenerateCorpusError"
    by (simp add: init_kb_def fit_transform_def)
next
  assume "sort (remdups (concat (map (tokenize stop) (map content its)))) \<noteq> []"
  then have "concat (map (tokenize stop) (map content its)) \<noteq> []"
    by (simp only: vocabulary_empty_iff not_False_eq_True)
  from init_kb_projr [OF this]
  have i: "init_kb stop doms its = Inr (projr (init_kb stop doms its))" .
  from init_kb_Inr(1,4) [OF i] fit_vectorizer(2) [OF init_kb_Inr(4) [OF i]] i
  show "\<exists>kb. init_kb stop doms its = Inr kb \<and> corpus kb = its \<and>
            vocabulary (kb_vectorizer kb) =
              sort (remdups (concat (map (tokenize stop) (map content its))))"
    by blast
qed

theorem empty_vocabulary_is_degenerate_witness:
  "fit example_stop (map content stop_only_corpus) = Inl DegenerateCorpusError \<and>
   init_kb example_stop [] stop_only_corpus = Inl DegenerateCorpusError \<and>
   (\<exists>kb. init_kb example_stop [] scenario_corpus = Inr kb \<and> corpus kb = scenario_corpus)"
proof -
  have "sort (remdups (concat (map (tokenize example_stop) (map content stop_only_corpus)))) = []"
    by (simp add: stop_only_corpus_def mk_item_def stop_only_tokens)
  moreover
  have "sort (remdups (concat (map (tokenize example_stop) (map content scenario_corpus)))) \<noteq> []"
    by (simp add: vocabulary_empty_iff scenario_corpus_def mk_item_def tokenize_scenario
        del: concat_eq_Nil_conv)
  ultimately show ?thesis
    using empty_vocabulary_is_degenerate [of example_stop stop_only_corpus "[]"]
      empty_vocabulary_is_degenerate [of example_stop scenario_corpus "[]"]
    by blast
qed

section \<open>Filters and the cap\<close>

lemma six_tokens:
  "tokenize example_stop ''canvas canvas canvas lean lean lean lean'' =
     [''canvas'', ''canvas'', ''canvas'', ''lean'', ''lean'', ''lean'', ''lean'']"
  "tokenize example_stop ''canvas canvas canvas canvas lean lean lean'' =
     [''canvas'', ''canvas'', ''canvas'', ''canvas'', ''lean'', ''lean'', ''lean'']"
  "tokenize example_stop ''canvas'' = [''canvas'']"
  by code_simp+

lemma six_contents:
  "map content six_corpus =
     [''canvas canvas canvas lean lean lean lean'',
      ''canvas canvas canvas canvas lean lean lean'',
      ''canvas canvas canvas canvas lean lean lean'',
      ''canvas canvas canvas canvas lean lean lean'',
      ''canvas canvas canvas canvas lean lean lean'',
      ''canvas canvas canvas canvas lean lean lean'']"
  by (simp add: six_corpus_def mk_item_def)

lemma six_vocabulary:
  "sort (remdups (concat (map (tokenize example_stop) (map content six_corpus)))) =
     [''canvas'', ''lean'']"
  unfolding six_contents by code_simp

lemma six_doc_freq:
  "doc_freq (map (tokenize example_stop) (map content six_corpus)) ''canvas'' = 6"
  "doc_freq (map (tokenize example_stop) (map content six_corpus)) ''lean'' = 6"
  unfolding six_contents by code_simp+

lemma six_fit:
  "fit example_stop (map content six_corpus) =
     Inr \<lparr>stop_words = example_stop, vocabulary = [''canvas'', ''lean''], idf = [1, 1]\<rparr>"
proof -
  have n: "length (map content six_corpus) = 6"
    by (simp add: six_corpus_def)
  show ?thesis
    unfolding fit_def Let_def six_vocabulary n
    by (simp add: six_doc_freq idf_weight_def del: map_map)
qed


lemma sqrt_25 [simp]: "sqrt 25 = 5"
proof -
  have "sqrt 25 = sqrt (5\<^sup>2)" by simp
  also have "\<dots> = 5" by (simp only: real_sqrt_abs abs_numeral)
  finally show ?thesis .
qed

lemma six_transform:
  "transform \<lparr>stop_words = example_stop, vocabulary = [''canvas'', ''lean''], idf = [1, 1]\<rparr>
     ''canvas canvas canvas lean lean lean lean'' = [3 / 5, 4 / 5]"
  "transform \<lparr>stop_words = example_stop, vocabulary = [''canvas'', ''lean''], idf = [1, 1]\<rparr>
     ''canvas canvas canvas canvas lean lean lean'' = [4 / 5, 3 / 5]"
  "transform \<lparr>stop_words = example_stop, vocabulary = [''canvas'', ''lean''], idf = [1, 1]\<rparr>
     ''canvas'' = [1, 0]"
  by (simp_all add: transform_def tfidf_weights_def term_counts_def six_tokens l2_normalize_def
      l2_norm_def handle_zeros_def)

lemma six_kb_eq:
  "six_kb = \<lparr>kb_domains = [], corpus = six_corpus,
            kb_vectorizer = \<lparr>stop_words = example_stop, vocabulary = [''canvas'', ''lean''],
                              idf = [1, 1]\<rparr>,
            content_matrix = [[3 / 5, 4 / 5], [4 / 5, 3 / 5], [4 / 5, 3 / 5], [4 / 5, 3 / 5],
                              [4 / 5, 3 / 5], [4 / 5, 3 / 5]]\<rparr>"
  unfolding six_kb_def init_kb_eq [OF six_fit] six_contents
  by (simp add: six_transform)


lemma six_scores:
  "similarity_scores six_kb ''canvas'' = [3 / 5, 4 / 5, 4 / 5, 4 / 5, 4 / 5, 4 / 5]"
  by (simp add: similarity_scores_def six_kb_eq six_transform cosine_similarity_def
      l2_normalize_def l2_norm_def handle_zeros_def)

lemma six_ranked:
  "sorted_indices [3 / 5, 4 / 5, 4 / 5, 4 / 5, 4 / 5, 4 / 5 :: real] = [5, 4, 3, 2, 1, 0]"
  by (simp add: sorted_indices_def argsort_def upt_rec)


lemma annotate_inject [simp]: "annotate x s = annotate y t \<longleftrightarrow> x = y \<and> s = t"
  by (cases x, cases y) (auto simp: annotate_def knowledge_item.extend_def)

text \<open>
  C6 (as stated, refuted). Six items pass the threshold for the query; the one that ranks
  last, whatever the order of the other five, is the only one in domain \<open>lean\<close>. The
  unfiltered result is cut after five items and lacks it; the result filtered by that
  domain returns it.
\<close>

theorem filtered_item_missing_from_unfiltered:
  "query six_kb ''2024-01-01T00:00:00'' ''canvas'' (Some [''lean'']) None =
     Inr \<lparr>items = [annotate (six_corpus ! 0) (3 / 5)],
          sources = [engine_source],
          metadata = \<lparr>md_query = ''canvas'', md_domains = Some [''lean''],
                      md_capabilities = None, md_timestamp = ''2024-01-01T00:00:00''\<rparr>\<rparr> \<and>
   query six_kb ''2024-01-01T00:00:00'' ''canvas'' None None =
     Inr \<lparr>items = [annotate (six_corpus ! 5) (4 / 5), annotate (six_corpus ! 4) (4 / 5),
                   annotate (six_corpus ! 3) (4 / 5), annotate (six_corpus ! 2) (4 / 5),
                   annotate (six_corpus ! 1) (4 / 5)],
          sources = [engine_source],
          metadata = \<lparr>md_query = ''canvas'', md_domains = None,
                      md_capabilities = None, md_timestamp = ''2024-01-01T00:00:00''\<rparr>\<rparr> \<and>
   annotate (six_corpus ! 0) (3 / 5) \<notin>
     set [annotate (six_corpus ! 5) (4 / 5), annotate (six_corpus ! 4) (4 / 5),
          annotate (six_corpus ! 3) (4 / 5), annotate (six_corpus ! 2) (4 / 5),
          annotate (six_corpus ! 1) (4 / 5)]"
proof -
  have al: "length (content_matrix six_kb) = length (corpus six_kb)"
    by (simp add: six_kb_eq six_corpus_def)
  have c: "corpus six_kb = six_corpus"
    by (simp add: six_kb_eq)
  have k0: "kept six_kb ''canvas'' None None = [5, 4, 3, 2, 1]"
    by (simp add: kept_def six_scores six_ranked not_skipped_unfiltered)
  have k1: "kept six_kb ''canvas'' (Some [''lean'']) None = [0]"
    by (simp add: kept_def six_scores six_ranked c skipped_def six_corpus_def mk_item_def)
  show ?thesis
    by (simp add: query_fitted [OF al] k0 k1 c six_scores)
qed

lemma skipped_filtered_imp:
  assumes "\<not> truthy domains0" "\<not> truthy caps0"
  shows "\<not> skipped domains caps item s \<Longrightarrow> \<not> skipped domains0 caps0 item s"
  using assms by (auto simp: skipped_def split: if_splits)

text \<open>
  C6 (amended). When the result of a query with both filters empty holds fewer than five
  items, the result of the same query with any filters is a sub-list of it: filtering
  only removes items and keeps the order. (With five items the unfiltered result has been
  cut, and a filtered result may hold an item from behind the cut.)
\<close>

theorem filtered_within_uncut_unfiltered:
  assumes "init_kb stop doms its = Inr kb"
    and "\<not> truthy domains0" and "\<not> truthy caps0"
    and "query kb now q domains0 caps0 = Inr r0"
    and "query kb now q domains caps = Inr r"
    and "length (items r0) < 5"
  shows "subseq (items r) (items r0) \<and> set (items r) \<subseteq> set (items r0)"
proof -
  let ?s = "similarity_scores kb q"
  let ?a = "\<lambda>i. annotate (corpus kb ! i) (?s ! i)"
  let ?U = "filter (\<lambda>i. \<not> skipped domains0 caps0 (corpus kb ! i) (?s ! i)) (sorted_indices ?s)"
  let ?G = "filter (\<lambda>i. \<not> skipped domains caps (corpus kb ! i) (?s ! i)) (sorted_indices ?s)"
  have al: "length (content_matrix kb) = length (corpus kb)"
    by (rule fitted_aligned [OF assms(1)])
  have r0: "items r0 = map ?a (take 5 ?U)"
    using assms(4) by (auto simp: query_fitted [OF al] kept_def Let_def)
  have r: "items r = map ?a (take 5 ?G)"
    using assms(5) by (auto simp: query_fitted [OF al] kept_def Let_def)
  from assms(6) r0 have "length ?U < 5" by (simp add: min_def split: if_splits)
  then have uncut: "take 5 ?U = ?U" by simp
  have "?G = filter (\<lambda>i. \<not> skipped domains caps (corpus kb ! i) (?s ! i)) ?U"
    using skipped_filtered_imp [OF assms(2,3)] by (auto intro: filter_cong)
  then have "subseq ?G ?U"
    by (metis subseq_filter_left)
  moreover have "subseq (take 5 ?G) ?G"
    by (rule prefix_imp_subseq [OF take_is_prefix])
  ultimately have "subseq (take 5 ?G) ?U"
    by (rule subseq_order.order_trans [rotated])
  then have "subseq (map ?a (take 5 ?G)) (map ?a ?U)"
    by (rule subseq_map)
  then have s: "subseq (items r) (items r0)"
    by (simp only: r r0 uncut)
  then show ?thesis
    using list_emb_set [OF s] by blast
qed


theorem filtered_within_uncut_unfiltered_witness:
  "subseq (items (projr (query scenario_kb ''2024-01-01T00:00:00'' ''lean canvas''
                           (Some [''lean'']) None)))
          (items (projr (query scenario_kb ''2024-01-01T00:00:00'' ''lean canvas'' None None))) \<and>
   set (items (projr (query scenario_kb ''2024-01-01T00:00:00'' ''lean canvas''
                        (Some [''lean'']) None)))
     \<subseteq> set (items (projr (query scenario_kb ''2024-01-01T00:00:00'' ''lean canvas''
                                None None)))"
proof -
  let ?t = "''2024-01-01T00:00:00''"
  have al: "length (content_matrix scenario_kb) = length (corpus scenario_kb)"
    by (rule fitted_aligned [OF scenario_init])
  have q0: "query scenario_kb ?t ''lean canvas'' None None =
      Inr (projr (query scenario_kb ?t ''lean canvas'' None None))"
    by (simp add: query_fitted [OF al])
  have q1: "query scenario_kb ?t ''lean canvas'' (Some [''lean'']) None =
      Inr (projr (query scenario_kb ?t ''lean canvas'' (Some [''lean'']) None))"
    by (simp add: query_fitted [OF al])
  have "length (content_matrix scenario_kb) = 2"
    by (simp add: init_kb_Inr(3) [OF scenario_init] scenario_corpus_def)
  then have len: "length (items (projr (query scenario_kb ?t ''lean canvas'' None None))) < 5"
    using length_kept_matrix [of scenario_kb "''lean canvas''" None None]
    by (simp add: query_fitted [OF al])
  show ?thesis
    by (rule filtered_within_uncut_unfiltered [OF scenario_init _ _ q0 q1 len]) simp_all
qed

section \<open>Queries and the state of the engine\<close>

lemma dict_copy_simps [simp]:
  "fst (dict_copy a st) = next_addr st"
  "heap (snd (dict_copy a st)) = (heap st)(next_addr st := heap st a)"
  "next_addr (snd (dict_copy a st)) = Suc (next_addr st)"
  "corpus_refs (snd (dict_copy a st)) = corpus_refs st"
  "st_domains (snd (dict_copy a st)) = st_domains st"
  "st_vectorizer (snd (dict_copy a st)) = st_vectorizer st"
  "st_matrix (snd (dict_copy a st)) = st_matrix st"
  by (simp_all add: dict_copy_def)

lemma set_score_simps [simp]:
  "heap (set_score a s st) = (heap st)(a := (heap st a)\<lparr>obj_score := Some s\<rparr>)"
  "next_addr (set_score a s st) = next_addr st"
  "corpus_refs (set_score a s st) = corpus_refs st"
  "st_domains (set_score a s st) = st_domains st"
  "st_vectorizer (set_score a s st) = st_vectorizer st"
  "st_matrix (set_score a s st) = st_matrix st"
  by (simp_all add: set_score_def)

lemma walk_h_frame:
  assumes "walk_h scores domains caps idxs acc st = Inr (refs, st')"
  shows "corpus_refs st' = corpus_refs st \<and> st_domains st' = st_domains st \<and>
         st_vectorizer st' = st_vectorizer st \<and> st_matrix st' = st_matrix st \<and>
         next_addr st \<le> next_addr st' \<and> (\<forall>a < next_addr st. heap st' a = heap st a)"
  using assms
proof (induction idxs arbitrary: acc st)
  case Nil
  then show ?case by simp
next
  case (Cons idx rest)
  let ?item = "corpus_refs st ! idx"
  let ?score = "scores ! idx"
  let ?st2 = "set_score (fst (dict_copy ?item st)) ?score (snd (dict_copy ?item st))"
  from Cons.prems have inb: "idx < length (corpus_refs st)"
    by (simp split: if_splits)
  show ?case
  proof (cases "skipped domains caps (obj_item (heap st ?item)) ?score")
    case True
    with Cons.prems inb have "walk_h scores domains caps rest acc st = Inr (refs, st')"
      by simp
    then show ?thesis by (rule Cons.IH)
  next
    case False
    show ?thesis
    proof (cases "5 \<le> Suc (length acc)")
      case True
      with False Cons.prems inb have "st' = ?st2"
        by (simp add: Let_def case_prod_unfold)
      then show ?thesis by simp
    next
      case F5: False
      with False Cons.prems inb
      have "walk_h scores domains caps rest (acc @ [fst (dict_copy ?item st)]) ?st2 = Inr (refs, st')"
        by (simp add: Let_def case_prod_unfold)
      from Cons.IH [OF this] show ?thesis by simp
    qed
  qed
qed

lemma walk_h_total:
  assumes "\<forall>i \<in> set idxs. i < length (corpus_refs st)"
  shows "\<exists>refs st'. walk_h scores domains caps idxs acc st = Inr (refs, st')"
  using assms
proof (induction idxs arbitrary: acc st)
  case Nil
  then show ?case by simp
next
  case (Cons idx rest)
  let ?item = "corpus_refs st ! idx"
  let ?score = "scores ! idx"
  let ?st2 = "set_score (fst (dict_copy ?item st)) ?score (snd (dict_copy ?item st))"
  from Cons.prems have r: "\<forall>i \<in> set rest. i < length (corpus_refs st)" by simp
  then have r2: "\<forall>i \<in> set rest. i < length (corpus_refs ?st2)" by simp
  from Cons.IH [OF r, of acc] Cons.IH [OF r2, of "acc @ [fst (dict_copy ?item st)]"] Cons.prems
  show ?case by (simp add: Let_def case_prod_unfold)
qed

lemma query_h_frame:
  assumes "query_h now q domains caps st = Inr (r, st')"
  shows "corpus_refs st' = corpus_refs st \<and> st_domains st' = st_domains st \<and>
         st_vectorizer st' = st_vectorizer st \<and> st_matrix st' = st_matrix st \<and>
         next_addr st \<le> next_addr st' \<and> (\<forall>a < next_addr st. heap st' a = heap st a)"
proof -
  from assms obtain refs where
    "walk_h (cosine_similarity (transform (st_vectorizer st) q) (st_matrix st)) domains caps
       (sorted_indices (cosine_similarity (transform (st_vectorizer st) q) (st_matrix st))) [] st =
     Inr (refs, st')"
    by (auto simp: query_h_def Let_def split: sum.splits)
  then show ?thesis by (rule walk_h_frame)
qed

lemma query_h_total:
  assumes "length (st_matrix st) = length (corpus_refs st)"
  shows "\<exists>r st'. query_h now q domains caps st = Inr (r, st')"
proof -
  let ?s = "cosine_similarity (transform (st_vectorizer st) q) (st_matrix st)"
  have "\<forall>i \<in> set (sorted_indices ?s). i < length (corpus_refs st)"
    using assms by simp
  from walk_h_total [OF this, of ?s domains caps "[]"]
  show ?thesis by (auto simp: query_h_def Let_def)
qed

lemma run_queries_frame:
  assumes "length (st_matrix st) = length (corpus_refs st)"
  shows "\<exists>rs st'. run_queries calls st = Inr (rs, st') \<and> length rs = length calls \<and>
           corpus_refs st' = corpus_refs st \<and> st_domains st' = st_domains st \<and>
           st_vectorizer st' = st_vectorizer st \<and> st_matrix st' = st_matrix st \<and>
           next_addr st \<le> next_addr st' \<and> (\<forall>a < next_addr st. heap st' a = heap st a)"
  using assms
proof (induction calls arbitrary: st)
  case Nil
  then show ?case by simp
next
  case (Cons c cs)
  from query_h_total [OF Cons.prems] obtain r st1 where
    q: "query_h (call_now c) (call_query c) (call_domains c) (call_capabilities c) st = Inr (r, st1)"
    by blast
  note f1 = query_h_frame [OF q]
  from f1 Cons.prems have "length (st_matrix st1) = length (corpus_refs st1)" by simp
  from Cons.IH [OF this] obtain rs st2 where
    rq: "run_queries cs st1 = Inr (rs, st2)" and l: "length rs = length cs"
    and f2: "corpus_refs st2 = corpus_refs st1" "st_domains st2 = st_domains st1"
      "st_vectorizer st2 = st_vectorizer st1" "st_matrix st2 = st_matrix st1"
      "next_addr st1 \<le> next_addr st2" "\<forall>a < next_addr st1. heap st2 a = heap st1 a"
    by blast
  have "run_queries (c # cs) st = Inr (r # rs, st2)"
    by (simp add: q rq)
  moreover have "\<forall>a < next_addr st. heap st2 a = heap st a"
    using f1 f2 by auto
  ultimately show ?case using f1 f2 l by auto
qed


lemma store_items_apply:
  "store_items xs a h b =
     (if a \<le> b \<and> b < a + length xs then \<lparr>obj_item = xs ! (b - a), obj_score = None\<rparr> else h b)"
proof (induction xs arbitrary: a h)
  case Nil
  then show ?case by auto
next
  case (Cons x xs)
  show ?case
    unfolding store_items.simps Cons.IH
    by (auto simp: nth_Cons')
qed

lemma load_state_items:
  "map (read_item (load_state kb)) (corpus_refs (load_state kb)) = corpus kb"
  by (rule nth_equalityI) (simp_all add: load_state_def read_item_def store_items_apply)

lemma walk_h_refines:
  assumes "\<forall>a \<in> set (corpus_refs st). a < next_addr st"
    and "\<forall>a \<in> set acc. a < next_addr st"
    and "map (read_scored st) acc = map Some accp"
    and "walk_h scores domains caps idxs acc st = Inr (refs, st')"
  shows "\<exists>its'. walk (map (read_item st) (corpus_refs st)) scores domains caps idxs accp = Inr its' \<and>
               map (read_scored st') refs = map Some its'"
  using assms
proof (induction idxs arbitrary: acc accp st)
  case Nil
  then show ?case by simp
next
  case (Cons idx rest)
  let ?item = "corpus_refs st ! idx"
  let ?score = "scores ! idx"
  let ?n = "next_addr st"
  let ?st2 = "set_score (fst (dict_copy ?item st)) ?score (snd (dict_copy ?item st))"
  let ?new = "annotate (read_item st ?item) ?score"
  from Cons.prems(4) have inb: "idx < length (corpus_refs st)"
    by (simp split: if_splits)
  then have nth: "map (read_item st) (corpus_refs st) ! idx = read_item st ?item"
    by simp
  from Cons.prems(3) have len: "length acc = length accp"
    by (metis length_map)
  show ?case
  proof (cases "skipped domains caps (obj_item (heap st ?item)) ?score")
    case True
    with Cons.prems(4) inb have "walk_h scores domains caps rest acc st = Inr (refs, st')"
      by simp
    from Cons.IH [OF Cons.prems(1,2,3) this] True inb show ?thesis
      by (simp add: nth read_item_def)
  next
    case False
    have refs2: "\<forall>a \<in> set (corpus_refs ?st2). a < next_addr ?st2"
      using Cons.prems(1) by (simp add: less_Suc_eq)
    have acc2: "\<forall>a \<in> set (acc @ [fst (dict_copy ?item st)]). a < next_addr ?st2"
      using Cons.prems(2) by (simp add: less_Suc_eq)
    have "map (read_scored ?st2) acc = map (read_scored st) acc"
      using Cons.prems(2) by (auto simp: read_scored_def)
    moreover have "read_scored ?st2 ?n = Some ?new"
      by (simp add: read_scored_def read_item_def)
    ultimately have accv2:
      "map (read_scored ?st2) (acc @ [fst (dict_copy ?item st)]) = map Some (accp @ [?new])"
      using Cons.prems(3) by simp
    have cps2: "map (read_item ?st2) (corpus_refs ?st2) = map (read_item st) (corpus_refs st)"
      using Cons.prems(1) by (auto simp: read_item_def)
    show ?thesis
    proof (cases "5 \<le> Suc (length acc)")
      case True
      with False Cons.prems(4) inb have "st' = ?st2" "refs = acc @ [fst (dict_copy ?item st)]"
        by (simp_all add: Let_def case_prod_unfold)
      with accv2 True False inb len show ?thesis
        by (simp add: nth read_item_def Let_def)
    next
      case F5: False
      with False Cons.prems(4) inb
      have "walk_h scores domains caps rest (acc @ [fst (dict_copy ?item st)]) ?st2 = Inr (refs, st')"
        by (simp add: Let_def case_prod_unfold)
      from Cons.IH [OF refs2 acc2 accv2 this]
      have "\<exists>its'. walk (map (read_item st) (corpus_refs st)) scores domains caps rest
                     (accp @ [?new]) = Inr its' \<and>
                   map (read_scored st') refs = map Some its'"
        unfolding cps2 .
      moreover have "\<not> skipped domains caps (read_item st ?item) ?score"
        using False by (simp add: read_item_def)
      ultimately show ?thesis
        using F5 inb len by (simp add: nth Let_def)
    qed
  qed
qed


lemma load_state_simps [simp]:
  "next_addr (load_state kb) = length (corpus kb)"
  "corpus_refs (load_state kb) = [0..<length (corpus kb)]"
  "st_domains (load_state kb) = kb_domains kb"
  "st_vectorizer (load_state kb) = kb_vectorizer kb"
  "st_matrix (load_state kb) = content_matrix kb"
  by (simp_all add: load_state_def)

lemma load_state_heap:
  "a < length (corpus kb) \<Longrightarrow>
   heap (load_state kb) a = \<lparr>obj_item = corpus kb ! a, obj_score = None\<rparr>"
  by (simp add: load_state_def store_items_apply)

text \<open>
  A query on the heap returns references to objects that read back as the items of the
  response of \<open>query\<close>, with the same sources and metadata.
\<close>

lemma query_h_refines:
  assumes "query_h now q domains caps (load_state kb) = Inr (r, st')"
  shows "\<exists>rp. query kb now q domains caps = Inr rp \<and>
              map (read_scored st') (items_refs r) = map Some (items rp) \<and>
              sources_h r = sources rp \<and> metadata_h r = metadata rp"
proof -
  let ?st = "load_state kb"
  let ?s = "similarity_scores kb q"
  from assms obtain refs where
    w: "walk_h ?s domains caps (sorted_indices ?s) [] ?st = Inr (refs, st')"
    and r: "r = \<lparr>items_refs = refs, sources_h = [engine_source],
                 metadata_h = \<lparr>md_query = q, md_domains = domains, md_capabilities = caps,
                               md_timestamp = now\<rparr>\<rparr>"
    by (auto simp: query_h_def similarity_scores_def Let_def split: sum.splits)
  have "\<exists>its'. walk (map (read_item ?st) (corpus_refs ?st)) ?s domains caps (sorted_indices ?s) [] =
                 Inr its' \<and> map (read_scored st') refs = map Some its'"
    by (rule walk_h_refines [OF _ _ _ w]) simp_all
  then obtain its' where
    "walk (corpus kb) ?s domains caps (sorted_indices ?s) [] = Inr its'"
    "map (read_scored st') refs = map Some its'"
    unfolding load_state_items by blast
  with r show ?thesis by (simp add: query_def Let_def)
qed

text \<open>
  C8. Whatever sequence of queries runs on a fitted engine, every call returns and the
  engine is as it was: the same corpus list, corpus matrix, vocabulary model and domains,
  and every stored corpus item is the same object with the same keys and values, none of
  them with a \<^verbatim>\<open>similarity_score\<close> key. The queries write to fresh copies only.
\<close>

theorem queries_leave_engine_unchanged:
  assumes "init_kb stop doms its = Inr kb"
  shows "\<exists>rs st'. run_queries calls (load_state kb) = Inr (rs, st') \<and>
           length rs = length calls \<and>
           corpus_refs st' = corpus_refs (load_state kb) \<and>
           st_matrix st' = content_matrix kb \<and>
           st_vectorizer st' = kb_vectorizer kb \<and>
           st_domains st' = doms \<and>
           (\<forall>a \<in> set (corpus_refs st'). heap st' a = heap (load_state kb) a) \<and>
           map (read_item st') (corpus_refs st') = its \<and>
           (\<forall>a \<in> set (corpus_refs st'). obj_score (heap st' a) = None)"
proof -
  let ?st = "load_state kb"
  have "length (st_matrix ?st) = length (corpus_refs ?st)"
    by (simp add: fitted_aligned [OF assms])
  from run_queries_frame [OF this, of calls] obtain rs st' where
    run: "run_queries calls ?st = Inr (rs, st')" and len: "length rs = length calls"
    and fr: "corpus_refs st' = corpus_refs ?st" "st_domains st' = st_domains ?st"
      "st_vectorizer st' = st_vectorizer ?st" "st_matrix st' = st_matrix ?st"
    and hp: "\<forall>a < next_addr ?st. heap st' a = heap ?st a"
    by blast
  have same: "\<forall>a \<in> set (corpus_refs st'). heap st' a = heap ?st a"
    using hp fr(1) by simp
  then have "map (read_item st') (corpus_refs st') = map (read_item ?st) (corpus_refs ?st)"
    by (simp add: fr(1) read_item_def)
  then have items: "map (read_item st') (corpus_refs st') = its"
    by (simp only: load_state_items init_kb_Inr(1) [OF assms])
  have "\<forall>a \<in> set (corpus_refs st'). obj_score (heap st' a) = None"
    using same fr(1) by (simp add: load_state_heap)
  with run len fr same items show ?thesis
    by (simp add: init_kb_Inr(2) [OF assms])
qed

theorem queries_leave_engine_unchanged_witness:
  "\<exists>rs st'. run_queries
              [\<lparr>call_now = ''2024-01-01T00:00:00'', call_query = ''business model canvas'',
                call_domains = None, call_capabilities = None\<rparr>,
               \<lparr>call_now = ''2024-01-01T00:00:01'', call_query = ''lean startup'',
                call_domains = Some [''lean''], call_capabilities = Some []\<rparr>]
              (load_state scenario_kb) = Inr (rs, st') \<and>
     length rs = 2 \<and>
     corpus_refs st' = [0, 1] \<and>
     st_matrix st' = content_matrix scenario_kb \<and>
     st_vectorizer st' = kb_vectorizer scenario_kb \<and>
     map (read_item st') (corpus_refs st') = scenario_corpus \<and>
     (\<forall>a \<in> set (corpus_refs st'). obj_score (heap st' a) = None)"
proof -
  have "corpus scenario_kb = scenario_corpus"
    by (rule init_kb_Inr(1) [OF scenario_init])
  then have "corpus_refs (load_state scenario_kb) = [0, 1]"
    by (simp add: scenario_corpus_def upt_rec)
  with queries_leave_engine_unchanged [OF scenario_init, of
      "[\<lparr>call_now = ''2024-01-01T00:00:00'', call_query = ''business model canvas'',
         call_domains = None, call_capabilities = None\<rparr>,
        \<lparr>call_now = ''2024-01-01T00:00:01'', call_query = ''lean startup'',
         call_domains = Some [''lean''], call_capabilities = Some []\<rparr>]"]
  show ?thesis by auto
qed

section \<open>Scores and order on the arrays of the library\<close>

lemma query_on_exact:
  "query kb now q domains caps =
   query_on kb (similarity_scores kb q) (argsort (similarity_scores kb q)) now q domains caps"
  by (simp add: query_def query_on_def sorted_indices_def Let_def)

lemma is_argsort_argsort: "is_argsort scores (argsort scores)"
  by (simp add: is_argsort_def argsort_def)









section \<open>A second call\<close>










end
